theory Spec2Isabelle
  imports Main
begin

section \<open>Values of the host application\<close>

text \<open>
  The plugin (\<^verbatim>\<open>src/main.ts\<close>) runs inside a note-taking host. The host's vault, its
  metadata cache and the completion client are not part of the repository: they are
  parameters of the model. A line feed inside a template literal is the character below.
\<close>

abbreviation nl :: string where
  "nl \<equiv> [CHR 0x0A]"

text \<open>
  A thrown value or a rejected promise. Every error the plugin renders is rendered through
  its \<^verbatim>\<open>message\<close> property.
\<close>

datatype error = Error string | TypeError string | Rejected string

fun message :: "error \<Rightarrow> string" where
  "message (Error m) = m"
| "message (TypeError m) = m"
| "message (Rejected m) = m"

text \<open>
  Front matter is parsed YAML, so the value stored under \<^verbatim>\<open>aliases\<close> is an arbitrary
  script value; \<open>JUndefined\<close> stands for an absent key. Numbers are restricted to
  integers here.
\<close>

datatype jsval =
    JUndefined
  | JNull
  | JBool bool
  | JNum int
  | JStr string
  | JArr "jsval list"
  | JObj "(string \<times> jsval) list"

text \<open>The truthiness test that \<^verbatim>\<open>if (v)\<close> performs.\<close>

fun truthy :: "jsval \<Rightarrow> bool" where
  "truthy JUndefined = False"
| "truthy JNull = False"
| "truthy (JBool b) = b"
| "truthy (JNum n) = (n \<noteq> 0)"
| "truthy (JStr s) = (s \<noteq> [])"
| "truthy (JArr xs) = True"
| "truthy (JObj kvs) = True"

text \<open>\<^verbatim>\<open>v === t\<close> for a string \<open>t\<close>: only a string value with the same characters is equal.\<close>

fun strict_equals_string :: "jsval \<Rightarrow> string \<Rightarrow> bool" where
  "strict_equals_string (JStr s) t = (s = t)"
| "strict_equals_string v t = False"

text \<open>\<^verbatim>\<open>Array.isArray(v) ? v : [v]\<close>\<close>

fun as_array :: "jsval \<Rightarrow> jsval list" where
  "as_array (JArr xs) = xs"
| "as_array v = [v]"

record tfile =
  path :: string
  basename :: string

datatype abstract_file = File tfile | Folder string

record link_cache =
  link :: string

record frontmatter_cache =
  aliases :: jsval

record cached_metadata =
  links :: "link_cache list option"
  frontmatter :: "frontmatter_cache option"

record chat_message =
  role :: string
  content :: string

record completion_message =
  message_content :: "string option"

record completion_choice =
  choice_message :: completion_message

record chat_completion =
  choices :: "completion_choice list"

record openai_client =
  client_apiKey :: "string option"
  baseURL :: string
  dangerouslyAllowBrowser :: bool

record chat_request =
  client :: openai_client
  model :: string
  request_messages :: "chat_message list"

text \<open>
  The host. \<open>cachedRead h n f\<close> is the outcome of reading \<open>f\<close> when \<open>n\<close> reads have been
  issued before it: a read is an I/O operation whose outcome may differ from one call to
  the next. The lookups of the vault and of the metadata cache are a fixed snapshot.
  \<open>completions_create\<close> is \<^verbatim>\<open>client.chat.completions.create\<close> of the completion library.
\<close>

record host =
  getAbstractFileByPath :: "string \<Rightarrow> abstract_file option"
  getMarkdownFiles :: "tfile list"
  getFileCache :: "tfile \<Rightarrow> cached_metadata option"
  cachedRead :: "nat \<Rightarrow> tfile \<Rightarrow> error + string"
  completions_create :: "chat_request \<Rightarrow> error + chat_completion"

text \<open>
  What the plugin asks of the host, in order: reads of a file's text, calls of the
  resolver, and calls of the completion library. Console output is not recorded.
\<close>

datatype event = EvRead tfile | EvResolve link_cache | EvCreate chat_request

type_synonym trace = "event list"

fun is_read :: "event \<Rightarrow> bool" where
  "is_read (EvRead f) = True"
| "is_read e = False"

fun is_create :: "event \<Rightarrow> bool" where
  "is_create (EvCreate r) = True"
| "is_create e = False"

definition reads_issued :: "trace \<Rightarrow> nat" where
  "reads_issued s = length (filter is_read s)"

definition vault_cachedRead :: "host \<Rightarrow> tfile \<Rightarrow> trace \<Rightarrow> (error + string) \<times> trace" where
  "vault_cachedRead h f s = (cachedRead h (reads_issued s) f, s @ [EvRead f])"

section \<open>SummarizerModal.resolveLinkedFile\<close>

text \<open>\<^verbatim>\<open>fileCache?.frontmatter?.aliases\<close>\<close>

definition frontmatter_aliases :: "cached_metadata option \<Rightarrow> jsval" where
  "frontmatter_aliases fileCache =
     (case fileCache of
        None \<Rightarrow> JUndefined
      | Some c \<Rightarrow> (case frontmatter c of None \<Rightarrow> JUndefined | Some fm \<Rightarrow> aliases fm))"

text \<open>The inner loop \<^verbatim>\<open>for (const alias of aliases)\<close>: true when it returns the file.\<close>

fun alias_loop :: "jsval list \<Rightarrow> string \<Rightarrow> bool" where
  "alias_loop [] linkText = False"
| "alias_loop (alias # rest) linkText =
     (if strict_equals_string alias linkText then True else alias_loop rest linkText)"

text \<open>
  The outer loop \<^verbatim>\<open>for (const file of files)\<close>: each file's basename is compared, then
  that same file's aliases, before the next file is looked at.
\<close>

fun files_loop :: "host \<Rightarrow> string \<Rightarrow> tfile list \<Rightarrow> tfile option" where
  "files_loop h linkText [] = None"
| "files_loop h linkText (file # rest) =
     (if basename file = linkText then Some file
      else if truthy (frontmatter_aliases (getFileCache h file)) then
        (if alias_loop (as_array (frontmatter_aliases (getFileCache h file))) linkText
         then Some file
         else files_loop h linkText rest)
      else files_loop h linkText rest)"

definition resolveLinkedFile :: "host \<Rightarrow> link_cache \<Rightarrow> tfile option" where
  "resolveLinkedFile h l =
     (let linkText = link l in
      case getAbstractFileByPath h linkText of
        Some (File linkedFile) \<Rightarrow> Some linkedFile
      | _ \<Rightarrow> files_loop h linkText (getMarkdownFiles h))"

text \<open>
  The alias test of the outer loop as a predicate of the file: the guard
  \<^verbatim>\<open>if (fileCache?.frontmatter?.aliases)\<close> first, then the search of the value taken as
  an array. \<open>matches_token\<close> is the whole test the loop makes of one file.
\<close>

definition has_alias :: "host \<Rightarrow> string \<Rightarrow> tfile \<Rightarrow> bool" where
  "has_alias h t f =
     (truthy (frontmatter_aliases (getFileCache h f)) \<and>
      JStr t \<in> set (as_array (frontmatter_aliases (getFileCache h f))))"

definition matches_token :: "host \<Rightarrow> string \<Rightarrow> tfile \<Rightarrow> bool" where
  "matches_token h t f = (basename f = t \<or> has_alias h t f)"

text \<open>
  The three tiers as the specification words them (used only for comparison with the
  code): the exact path, then the first file whose basename is the token, then the first
  file with an alias equal to the token. \<open>listed_alias\<close> is the specification's alias
  test: the alias field, a single string or a list, read as a list, holds the token; it
  has no guard.
\<close>

definition listed_alias :: "host \<Rightarrow> string \<Rightarrow> tfile \<Rightarrow> bool" where
  "listed_alias h t f = (JStr t \<in> set (as_array (frontmatter_aliases (getFileCache h f))))"

definition resolve_by_tiers :: "host \<Rightarrow> string \<Rightarrow> tfile option" where
  "resolve_by_tiers h t =
     (case getAbstractFileByPath h t of
        Some (File f) \<Rightarrow> Some f
      | _ \<Rightarrow>
        (case List.find (\<lambda>f. basename f = t) (getMarkdownFiles h) of
           Some f \<Rightarrow> Some f
         | None \<Rightarrow> List.find (listed_alias h t) (getMarkdownFiles h)))"

section \<open>SummarizerModal.getLinkedContents\<close>

text \<open>The template literal pushed for one linked note.\<close>

definition internal_link_entry :: "link_cache \<Rightarrow> string \<Rightarrow> string" where
  "internal_link_entry l txt = ''Internal Link ('' @ link l @ ''):'' @ nl @ txt @ nl @ nl"

text \<open>\<^verbatim>\<open>fileCache?.links\<close>\<close>

definition cache_links :: "cached_metadata option \<Rightarrow> link_cache list option" where
  "cache_links fileCache = (case fileCache of None \<Rightarrow> None | Some c \<Rightarrow> links c)"

text \<open>
  The body of the \<^verbatim>\<open>try\<close> block for one link: resolve it, and if a file is found read
  it and push the entry. The push is the last statement, so a rejected read leaves
  \<open>linkedContents\<close> as it was.
\<close>

definition link_try ::
  "host \<Rightarrow> link_cache \<Rightarrow> string list \<Rightarrow> trace \<Rightarrow> (error + string list) \<times> trace" where
  "link_try h l linkedContents s =
     (let linkedFile = resolveLinkedFile h l; s1 = s @ [EvResolve l] in
      case linkedFile of
        None \<Rightarrow> (Inr linkedContents, s1)
      | Some f \<Rightarrow>
          (case vault_cachedRead h f s1 of
             (Inl e, s2) \<Rightarrow> (Inl e, s2)
           | (Inr txt, s2) \<Rightarrow> (Inr (linkedContents @ [internal_link_entry l txt]), s2)))"

text \<open>
  \<^verbatim>\<open>for (const link of fileCache.links) { try { ... } catch (error) { console.error(...) } }\<close>:
  the \<^verbatim>\<open>catch\<close> only writes to the console, and the loop goes on.
\<close>

fun links_loop :: "host \<Rightarrow> link_cache list \<Rightarrow> string list \<Rightarrow> trace \<Rightarrow> string list \<times> trace" where
  "links_loop h [] linkedContents s = (linkedContents, s)"
| "links_loop h (l # rest) linkedContents s =
     (case link_try h l linkedContents s of
        (Inr pushed, s1) \<Rightarrow> links_loop h rest pushed s1
      | (Inl e, s1) \<Rightarrow> links_loop h rest linkedContents s1)"

text \<open>
  The whole method. The text of the root file itself is read first
  (\<^verbatim>\<open>const fileContent = await vault.cachedRead(file)\<close>), outside every
  \<^verbatim>\<open>try\<close>: if that read is rejected, so is the call. \<^verbatim>\<open>join('')\<close> is \<open>concat\<close>.
\<close>

definition getLinkedContents ::
  "host \<Rightarrow> tfile option \<Rightarrow> trace \<Rightarrow> (error + string) \<times> trace" where
  "getLinkedContents h file_arg s =
     (case file_arg of
        None \<Rightarrow> (Inr [], s)
      | Some f \<Rightarrow>
          (let fileCache = getFileCache h f in
           case vault_cachedRead h f s of
             (Inl e, s1) \<Rightarrow> (Inl e, s1)
           | (Inr fileContent, s1) \<Rightarrow>
               (case cache_links fileCache of
                  None \<Rightarrow> (Inr (concat []), s1)
                | Some ls \<Rightarrow>
                    (case links_loop h ls [] s1 of
                       (linkedContents, s2) \<Rightarrow> (Inr (concat linkedContents), s2)))))"

text \<open>
  The aggregate as the specification words it (used only for comparison with the code):
  the links that resolve, in discovery order, each with its file; their reads, numbered
  from \<open>k\<close> in that order (only a link that resolves is read); one entry for each read
  that succeeds; the concatenation of the entries.
\<close>

definition root_links :: "host \<Rightarrow> tfile \<Rightarrow> link_cache list" where
  "root_links h root = (case cache_links (getFileCache h root) of None \<Rightarrow> [] | Some ls \<Rightarrow> ls)"

definition resolved_links :: "host \<Rightarrow> link_cache list \<Rightarrow> (link_cache \<times> tfile) list" where
  "resolved_links h ls = List.map_filter (\<lambda>l. map_option (Pair l) (resolveLinkedFile h l)) ls"

definition read_entries :: "host \<Rightarrow> nat \<Rightarrow> (link_cache \<times> tfile) list \<Rightarrow> string list" where
  "read_entries h k lfs =
     List.map_filter
       (\<lambda>(n, l, f). case cachedRead h n f of
                      Inl e \<Rightarrow> None
                    | Inr txt \<Rightarrow> Some (internal_link_entry l txt))
       (List.enumerate k lfs)"

definition aggregate_text :: "host \<Rightarrow> nat \<Rightarrow> link_cache list \<Rightarrow> string" where
  "aggregate_text h k ls = concat (read_entries h k (resolved_links h ls))"

text \<open>
  The requests the loop makes for a list of links: every link is resolved, and read if a
  file was found.
\<close>

definition loop_events :: "host \<Rightarrow> link_cache list \<Rightarrow> trace" where
  "loop_events h ls =
     concat (map (\<lambda>l. EvResolve l #
                       (case resolveLinkedFile h l of None \<Rightarrow> [] | Some f \<Rightarrow> [EvRead f])) ls)"

section \<open>ApiCaller\<close>

record plugin_settings =
  mySetting :: string
  openaiApiKey :: string
  anthropicApiKey :: string
  deepseekApiKey :: string
  llmProvider :: string
  llmModelId :: string

text \<open>The fields of the class; \<open>apiKey\<close> stays unset for a provider the constructor does not know.\<close>

record api_caller =
  apiKey :: "string option"
  caller_llmModelId :: string
  provider :: string

definition new_ApiCaller :: "plugin_settings \<Rightarrow> api_caller" where
  "new_ApiCaller settings =
     \<lparr>apiKey =
        (if llmProvider settings = ''openai'' then Some (openaiApiKey settings)
         else if llmProvider settings = ''anthropic'' then Some (anthropicApiKey settings)
         else if llmProvider settings = ''deepseek'' then Some (deepseekApiKey settings)
         else None),
      caller_llmModelId = llmModelId settings,
      provider = llmProvider settings\<rparr>"

definition createOpenAIClient :: "api_caller \<Rightarrow> string \<Rightarrow> string \<Rightarrow> openai_client" where
  "createOpenAIClient c mdl baseUrl =
     \<lparr>client_apiKey = apiKey c, baseURL = baseUrl, dangerouslyAllowBrowser = True\<rparr>"

definition createClient :: "api_caller \<Rightarrow> error + openai_client" where
  "createClient c =
     (let prov = provider c; mdl = caller_llmModelId c in
      if prov = ''openai'' then Inr (createOpenAIClient c mdl ''https://api.openai.com/v1'')
      else if prov = ''anthropic'' then Inr (createOpenAIClient c mdl ''https://api.anthropic.com/v1'')
      else if prov = ''deepseek'' then Inr (createOpenAIClient c mdl ''https://api.deepseek.com/v1'')
      else Inl (Error (''Unsupported provider: '' @ prov)))"

text \<open>
  \<open>chatCompletion\<close> creates the client, which may throw, and then calls the completion
  library once with the model and the messages.
\<close>

definition chatCompletion ::
  "host \<Rightarrow> api_caller \<Rightarrow> chat_message list \<Rightarrow> trace \<Rightarrow> (error + chat_completion) \<times> trace" where
  "chatCompletion h c msgs s =
     (case createClient c of
        Inl e \<Rightarrow> (Inl e, s)
      | Inr cl \<Rightarrow>
          (let req = \<lparr>client = cl, model = caller_llmModelId c, request_messages = msgs\<rparr>
           in (completions_create h req, s @ [EvCreate req])))"

section \<open>SummarizerModal.onOpen\<close>

record markdown_view =
  getViewData :: string
  view_file :: "tfile option"

text \<open>What the modal shows when \<open>onOpen\<close> has finished.\<close>

datatype element = H3 string | P string | Pre string | Text string

definition promptContent :: "bool \<Rightarrow> string \<Rightarrow> string \<Rightarrow> string" where
  "promptContent summarizeWithLinks cont additionalContent =
     (if summarizeWithLinks
      then ''Please briefly summarize the following text and its linked content:'' @ nl @ nl
           @ ''Main Content:'' @ nl @ cont @ nl @ nl
           @ ''Linked Content:'' @ nl @ additionalContent
      else ''Please briefly summarize the following text:'' @ nl @ nl @ cont)"

definition messages :: "bool \<Rightarrow> string \<Rightarrow> string \<Rightarrow> chat_message list" where
  "messages summarizeWithLinks cont additionalContent =
     [\<lparr>role = ''system'', content = ''You are a helpful assistant that briefly summarizes text.''\<rparr>,
      \<lparr>role = ''user'', content = promptContent summarizeWithLinks cont additionalContent\<rparr>]"

text \<open>
  \<^verbatim>\<open>response.choices[0].message.content || 'No summary available'\<close>: reading
  \<^verbatim>\<open>.message\<close> of a missing first choice throws a \<^verbatim>\<open>TypeError\<close> (the message is
  the one of the host's script engine); a null or empty content is falsy.
\<close>

definition summary_text :: "chat_completion \<Rightarrow> error + string" where
  "summary_text response =
     (case choices response of
        [] \<Rightarrow> Inl (TypeError ''Cannot read properties of undefined (reading 'message')'')
      | c # cs \<Rightarrow>
          (case message_content (choice_message c) of
             None \<Rightarrow> Inr ''No summary available''
           | Some t \<Rightarrow> if t = [] then Inr ''No summary available'' else Inr t))"

text \<open>The inner \<^verbatim>\<open>try\<close>/\<^verbatim>\<open>catch\<close> that asks for the summary and shows it.\<close>

definition show_summary ::
  "host \<Rightarrow> api_caller \<Rightarrow> bool \<Rightarrow> string \<Rightarrow> string \<Rightarrow> trace \<Rightarrow> element list \<times> trace" where
  "show_summary h c summarizeWithLinks cont additionalContent s =
     (case chatCompletion h c (messages summarizeWithLinks cont additionalContent) s of
        (Inl e, s1) \<Rightarrow> ([P (''Error getting summary: '' @ message e), Pre cont], s1)
      | (Inr response, s1) \<Rightarrow>
          (case summary_text response of
             Inl e \<Rightarrow> ([P (''Error getting summary: '' @ message e), Pre cont], s1)
           | Inr t \<Rightarrow>
               ([H3 (if summarizeWithLinks then ''Summary (with linked content)'' else ''Summary''),
                 P t], s1)))"

text \<open>
  \<open>onOpen\<close>. The branch that asks for the summary is guarded by the literal
  \<^verbatim>\<open>if (false) { // TODO: Remove this test line\<close>, which replaced
  \<^verbatim>\<open>if (this.apiCaller)\<close>; the model keeps the guard as it is written.
\<close>

definition onOpen ::
  "host \<Rightarrow> api_caller \<Rightarrow> markdown_view option \<Rightarrow> bool \<Rightarrow> trace \<Rightarrow> element list \<times> trace" where
  "onOpen h apiCaller markdownView summarizeWithLinks s =
     (let cont = (case markdownView of None \<Rightarrow> [] | Some v \<Rightarrow> getViewData v);
          f = (case markdownView of None \<Rightarrow> None | Some v \<Rightarrow> view_file v)
      in case (if summarizeWithLinks \<and> f \<noteq> None then getLinkedContents h f s else (Inr [], s)) of
           (Inl e, s1) \<Rightarrow> ([P (''Error processing content: '' @ message e)], s1)
         | (Inr additionalContent, s1) \<Rightarrow>
             (if False
              then show_summary h apiCaller summarizeWithLinks cont additionalContent s1
              else ([Text (''No API caller available. Raw content:'' @ nl @ nl @ cont)], s1)))"

section \<open>Example vaults\<close>

text \<open>
  A vault of two notes, the first with the alias value \<open>v\<close>; with \<open>v\<close> the token \<open>t\<close>,
  that token is an alias of the first note and the basename of the second.
\<close>

definition note_a :: tfile where
  "note_a = \<lparr>path = ''a.md'', basename = ''a''\<rparr>"

definition note_t :: tfile where
  "note_t = \<lparr>path = ''dir/t.md'', basename = ''t''\<rparr>"

definition alias_vault :: "jsval \<Rightarrow> host" where
  "alias_vault v =
     \<lparr>getAbstractFileByPath = (\<lambda>p. if p = ''a.md'' then Some (File note_a)
                                  else if p = ''dir/t.md'' then Some (File note_t)
                                  else if p = ''dir'' then Some (Folder ''dir'')
                                  else None),
      getMarkdownFiles = [note_a, note_t],
      getFileCache = (\<lambda>f. if f = note_a
                           then Some \<lparr>links = None, frontmatter = Some \<lparr>aliases = v\<rparr>\<rparr>
                           else Some \<lparr>links = None, frontmatter = None\<rparr>),
      cachedRead = (\<lambda>n f. Inr (path f)),
      completions_create = (\<lambda>r. Inr \<lparr>choices = []\<rparr>)\<rparr>"

text \<open>
  A vault with a root note and three further notes; the root's links and the outcome of
  every read are parameters.
\<close>

definition root_note :: tfile where
  "root_note = \<lparr>path = ''root.md'', basename = ''root''\<rparr>"

definition note_b :: tfile where
  "note_b = \<lparr>path = ''b.md'', basename = ''b''\<rparr>"

definition note_c :: tfile where
  "note_c = \<lparr>path = ''c.md'', basename = ''c''\<rparr>"

definition linked_vault :: "link_cache list \<Rightarrow> (nat \<Rightarrow> tfile \<Rightarrow> error + string) \<Rightarrow> host" where
  "linked_vault ls reads =
     \<lparr>getAbstractFileByPath = (\<lambda>p. if p = ''root.md'' then Some (File root_note)
                                  else if p = ''a.md'' then Some (File note_a)
                                  else if p = ''b.md'' then Some (File note_b)
                                  else if p = ''c.md'' then Some (File note_c)
                                  else None),
      getMarkdownFiles = [root_note, note_a, note_b, note_c],
      getFileCache = (\<lambda>f. if f = root_note
                           then Some \<lparr>links = Some ls, frontmatter = None\<rparr>
                           else None),
      cachedRead = reads,
      completions_create = (\<lambda>r. Inr \<lparr>choices = []\<rparr>)\<rparr>"

definition demo_settings :: "string \<Rightarrow> plugin_settings" where
  "demo_settings prov =
     \<lparr>mySetting = ''default'', openaiApiKey = ''k1'', anthropicApiKey = ''k2'',
      deepseekApiKey = ''k3'', llmProvider = prov, llmModelId = ''gpt-4o''\<rparr>"

text \<open>Replacing the alias value in one file's front matter.\<close>

definition set_aliases :: "host \<Rightarrow> tfile \<Rightarrow> jsval \<Rightarrow> host" where
  "set_aliases h f v =
     h\<lparr>getFileCache :=
         (getFileCache h)(f := Some \<lparr>links = cache_links (getFileCache h f),
                                     frontmatter = Some \<lparr>aliases = v\<rparr>\<rparr>)\<rparr>"

text \<open>Outcomes of reads: every read succeeds; the read numbered 2 is rejected; every read is rejected.\<close>

definition reads_ok :: "nat \<Rightarrow> tfile \<Rightarrow> error + string" where
  "reads_ok n f = Inr (basename f)"

definition reads_second_fails :: "nat \<Rightarrow> tfile \<Rightarrow> error + string" where
  "reads_second_fails n f = (if n = 2 then Inl (Rejected ''EIO'') else Inr (basename f))"

definition reads_rejected :: "nat \<Rightarrow> tfile \<Rightarrow> error + string" where
  "reads_rejected n f = Inl (Rejected ''EIO'')"

definition link_a :: link_cache where
  "link_a = \<lparr>link = ''a''\<rparr>"

definition link_b :: link_cache where
  "link_b = \<lparr>link = ''b''\<rparr>"

definition link_c :: link_cache where
  "link_c = \<lparr>link = ''c''\<rparr>"

definition link_missing :: link_cache where
  "link_missing = \<lparr>link = ''missing''\<rparr>"

definition three_links_vault :: host where
  "three_links_vault = linked_vault [link_a, link_b, link_c] reads_second_fails"

definition repeated_link_vault :: host where
  "repeated_link_vault = linked_vault [link_a, link_missing, link_a] reads_ok"

definition unresolved_link_vault :: host where
  "unresolved_link_vault = linked_vault [link_missing] reads_ok"

definition unreadable_root_vault :: host where
  "unreadable_root_vault = linked_vault [link_missing] reads_rejected"

definition demo_view :: markdown_view where
  "demo_view = \<lparr>getViewData = ''X'', view_file = Some root_note\<rparr>"

definition empty_content_response :: chat_completion where
  "empty_content_response = \<lparr>choices = [\<lparr>choice_message = \<lparr>message_content = None\<rparr>\<rparr>]\<rparr>"

definition no_choices_response :: chat_completion where
  "no_choices_response = \<lparr>choices = []\<rparr>"

definition no_choices_host :: host where
  "no_choices_host = linked_vault [] reads_ok\<lparr>completions_create := (\<lambda>r. Inr no_choices_response)\<rparr>"

definition text_response :: chat_completion where
  "text_response = \<lparr>choices = [\<lparr>choice_message = \<lparr>message_content = Some ''Hi''\<rparr>\<rparr>]\<rparr>"

section \<open>Properties of the resolver\<close>

lemma alias_loop_iff: "alias_loop xs t \<longleftrightarrow> JStr t \<in> set xs"
proof (induction xs)
  case Nil
  show ?case by simp
next
  case (Cons a xs)
  have "strict_equals_string a t \<longleftrightarrow> a = JStr t"
    by (cases a) auto
  with Cons show ?case by auto
qed

lemma files_loop_find: "files_loop h t fs = List.find (matches_token h t) fs"
  by (induction fs) (simp_all add: matches_token_def has_alias_def alias_loop_iff)

text \<open>
  C5. If the vault has a file at the exact path \<open>t\<close>, resolving \<open>t\<close> returns that file,
  whatever basenames and aliases the listed files have.
\<close>

theorem resolve_exact_path_wins:
  assumes "getAbstractFileByPath h t = Some (File f)"
  shows "resolveLinkedFile h \<lparr>link = t\<rparr> = Some f"
  using assms by (simp add: resolveLinkedFile_def)

theorem resolve_exact_path_wins_witness:
  "getAbstractFileByPath (alias_vault (JStr ''dir/t.md'')) ''dir/t.md'' = Some (File note_t)
   \<and> has_alias (alias_vault (JStr ''dir/t.md'')) ''dir/t.md'' note_a
   \<and> resolveLinkedFile (alias_vault (JStr ''dir/t.md'')) \<lparr>link = ''dir/t.md''\<rparr> = Some note_t"
proof -
  have p: "getAbstractFileByPath (alias_vault (JStr ''dir/t.md'')) ''dir/t.md'' = Some (File note_t)"
    by (simp add: alias_vault_def)
  have a: "has_alias (alias_vault (JStr ''dir/t.md'')) ''dir/t.md'' note_a"
    by (simp add: has_alias_def alias_vault_def frontmatter_aliases_def)
  from p a resolve_exact_path_wins [OF p] show ?thesis by simp
qed

text \<open>
  C1, as the code has it. After the exact path, the listing is walked once: the first
  file, in listing order, whose basename is the token, or whose alias field is truthy
  and, taken as an array, holds the token, is returned (a folder at the exact path
  counts as no file); otherwise nothing is found. Basenames do not take precedence over
  the aliases of earlier files, and an alias field that fails the guard (absent, null,
  false, zero or the empty string) matches nothing.
\<close>

theorem resolve_single_pass:
  "resolveLinkedFile h l =
     (case getAbstractFileByPath h (link l) of
        Some (File f) \<Rightarrow> Some f
      | Some (Folder d) \<Rightarrow>
          List.find
            (\<lambda>f. basename f = link l \<or>
                 (truthy (frontmatter_aliases (getFileCache h f)) \<and>
                  JStr (link l) \<in> set (as_array (frontmatter_aliases (getFileCache h f)))))
            (getMarkdownFiles h)
      | None \<Rightarrow>
          List.find
            (\<lambda>f. basename f = link l \<or>
                 (truthy (frontmatter_aliases (getFileCache h f)) \<and>
                  JStr (link l) \<in> set (as_array (frontmatter_aliases (getFileCache h f)))))
            (getMarkdownFiles h))"
proof -
  have m: "matches_token h t =
           (\<lambda>f. basename f = t \<or>
                 (truthy (frontmatter_aliases (getFileCache h f)) \<and>
                  JStr t \<in> set (as_array (frontmatter_aliases (getFileCache h f)))))" for t
    by (simp add: fun_eq_iff matches_token_def has_alias_def)
  have "files_loop h (link l) (getMarkdownFiles h) =
        List.find
          (\<lambda>f. basename f = link l \<or>
               (truthy (frontmatter_aliases (getFileCache h f)) \<and>
                JStr (link l) \<in> set (as_array (frontmatter_aliases (getFileCache h f)))))
          (getMarkdownFiles h)"
    by (simp only: files_loop_find m)
  then show ?thesis
    by (simp add: resolveLinkedFile_def Let_def split: option.split abstract_file.split)
qed

text \<open>
  C1 as stated fails: with the token \<open>t\<close> an alias of the first listed note and the
  basename of the second, the code returns the first note, the three separated tiers
  the second.
\<close>

theorem resolve_tiers_counterexample:
  "resolveLinkedFile (alias_vault (JArr [JStr ''t''])) \<lparr>link = ''t''\<rparr> = Some note_a
   \<and> resolve_by_tiers (alias_vault (JArr [JStr ''t''])) ''t'' = Some note_t
   \<and> note_a \<noteq> note_t"
  by (simp add: resolveLinkedFile_def resolve_by_tiers_def alias_vault_def note_a_def note_t_def
      frontmatter_aliases_def listed_alias_def)

lemma aliases_set_aliases_same:
  "frontmatter_aliases (getFileCache (set_aliases h f v) f) = v"
  by (simp add: set_aliases_def frontmatter_aliases_def)

lemma aliases_set_aliases_other:
  "g \<noteq> f \<Longrightarrow> getFileCache (set_aliases h f v) g = getFileCache h g"
  by (simp add: set_aliases_def)

lemma set_aliases_vault:
  "getAbstractFileByPath (set_aliases h f v) = getAbstractFileByPath h"
  "getMarkdownFiles (set_aliases h f v) = getMarkdownFiles h"
  by (simp_all add: set_aliases_def)

lemma has_alias_set_aliases:
  "has_alias (set_aliases h f v) t g =
     (if g = f then truthy v \<and> JStr t \<in> set (as_array v) else has_alias h t g)"
  by (simp add: has_alias_def aliases_set_aliases_same aliases_set_aliases_other)

text \<open>
  C9, as the code has it. A non-empty alias stored as a single string is treated as the
  one-element list holding it: the alias test of every file and the result of resolving
  every link are the same for the two representations.
\<close>

theorem alias_string_as_singleton:
  assumes "a \<noteq> []"
  shows "has_alias (set_aliases h f (JStr a)) t g = has_alias (set_aliases h f (JArr [JStr a])) t g
       \<and> resolveLinkedFile (set_aliases h f (JStr a)) l
         = resolveLinkedFile (set_aliases h f (JArr [JStr a])) l"
proof -
  have m: "matches_token (set_aliases h f (JStr a)) t' = matches_token (set_aliases h f (JArr [JStr a])) t'"
    for t'
    using assms by (auto simp: fun_eq_iff matches_token_def has_alias_set_aliases)
  have fl: "files_loop (set_aliases h f (JStr a)) t' fs = files_loop (set_aliases h f (JArr [JStr a])) t' fs"
    for t' fs
    by (simp add: files_loop_find m)
  have r: "resolveLinkedFile (set_aliases h f (JStr a)) l
         = resolveLinkedFile (set_aliases h f (JArr [JStr a])) l"
    by (simp add: resolveLinkedFile_def Let_def set_aliases_vault fl
        split: option.split abstract_file.split)
  have "has_alias (set_aliases h f (JStr a)) t g = has_alias (set_aliases h f (JArr [JStr a])) t g"
    using assms by (simp add: has_alias_set_aliases)
  with r show ?thesis by simp
qed

theorem alias_string_as_singleton_witness:
  "''t'' \<noteq> []
   \<and> resolveLinkedFile (set_aliases (alias_vault JUndefined) note_a (JStr ''t'')) \<lparr>link = ''t''\<rparr> = Some note_a
   \<and> resolveLinkedFile (set_aliases (alias_vault JUndefined) note_a (JArr [JStr ''t''])) \<lparr>link = ''t''\<rparr> = Some note_a"
proof -
  have n: "''t'' \<noteq> []" by simp
  have v: "resolveLinkedFile (set_aliases (alias_vault JUndefined) note_a (JStr ''t'')) \<lparr>link = ''t''\<rparr> = Some note_a"
    by (simp add: resolveLinkedFile_def set_aliases_def alias_vault_def note_a_def note_t_def
      frontmatter_aliases_def cache_links_def)
  from n v alias_string_as_singleton [OF n, of "alias_vault JUndefined" note_a "''t''" note_a "\<lparr>link = ''t''\<rparr>"]
  show ?thesis by simp
qed

text \<open>
  C9 as stated fails at the empty token: the guard \<^verbatim>\<open>if (fileCache?.frontmatter?.aliases)\<close>
  is false for the empty string and true for a list, so the empty alias stored as a string
  never matches while the list holding it does.
\<close>

theorem alias_string_counterexample:
  "resolveLinkedFile (alias_vault (JStr [])) \<lparr>link = []\<rparr> = None
   \<and> resolveLinkedFile (alias_vault (JArr [JStr []])) \<lparr>link = []\<rparr> = Some note_a"
  by (simp add: resolveLinkedFile_def alias_vault_def note_a_def note_t_def
      frontmatter_aliases_def)

section \<open>Properties of the aggregator\<close>

lemma reads_issued_snoc_read: "reads_issued (s @ [EvRead f]) = Suc (reads_issued s)"
  by (simp add: reads_issued_def)

lemma reads_issued_snoc_resolve: "reads_issued (s @ [EvResolve l]) = reads_issued s"
  by (simp add: reads_issued_def)

lemma link_try_not_found:
  "resolveLinkedFile h l = None \<Longrightarrow> link_try h l acc s = (Inr acc, s @ [EvResolve l])"
  by (simp add: link_try_def)

lemma link_try_found:
  "resolveLinkedFile h l = Some f \<Longrightarrow>
   link_try h l acc s =
     ((case cachedRead h (reads_issued s) f of
         Inl e \<Rightarrow> Inl e
       | Inr txt \<Rightarrow> Inr (acc @ [internal_link_entry l txt])),
      s @ [EvResolve l, EvRead f])"
  by (simp add: link_try_def vault_cachedRead_def reads_issued_snoc_resolve split: sum.split)

lemma resolved_links_Cons:
  "resolved_links h (l # ls) =
     (case resolveLinkedFile h l of None \<Rightarrow> resolved_links h ls | Some f \<Rightarrow> (l, f) # resolved_links h ls)"
  by (simp add: resolved_links_def split: option.split)

lemma read_entries_Nil: "read_entries h k [] = []"
  by (simp add: read_entries_def)

lemma read_entries_Cons:
  "read_entries h k ((l, f) # lfs) =
     (case cachedRead h k f of
        Inl e \<Rightarrow> read_entries h (Suc k) lfs
      | Inr txt \<Rightarrow> internal_link_entry l txt # read_entries h (Suc k) lfs)"
  by (simp add: read_entries_def split: sum.split)

lemma loop_events_Cons:
  "loop_events h (l # ls) =
     EvResolve l # (case resolveLinkedFile h l of None \<Rightarrow> [] | Some f \<Rightarrow> [EvRead f]) @ loop_events h ls"
  by (simp add: loop_events_def)

lemma links_loop_eq:
  "links_loop h ls acc s =
     (acc @ read_entries h (reads_issued s) (resolved_links h ls), s @ loop_events h ls)"
proof (induction ls arbitrary: acc s)
  case Nil
  show ?case by (simp add: resolved_links_def read_entries_Nil loop_events_def)
next
  case (Cons l ls)
  show ?case
  proof (cases "resolveLinkedFile h l")
    case None
    then show ?thesis
      by (simp add: link_try_not_found Cons.IH resolved_links_Cons loop_events_Cons
          reads_issued_snoc_resolve)
  next
    case (Some f)
    have k: "reads_issued (s @ [EvResolve l, EvRead f]) = Suc (reads_issued s)"
      by (simp add: reads_issued_def)
    show ?thesis
    proof (cases "cachedRead h (reads_issued s) f")
      case (Inl e)
      with Some k show ?thesis
        by (simp add: link_try_found Cons.IH resolved_links_Cons loop_events_Cons read_entries_Cons)
    next
      case (Inr body)
      with Some k show ?thesis
        by (simp add: link_try_found Cons.IH resolved_links_Cons loop_events_Cons read_entries_Cons)
    qed
  qed
qed

lemma getLinkedContents_root_read_rejected:
  "cachedRead h (reads_issued s) root = Inl e \<Longrightarrow>
   getLinkedContents h (Some root) s = (Inl e, s @ [EvRead root])"
  by (simp add: getLinkedContents_def vault_cachedRead_def)

lemma getLinkedContents_eq:
  assumes "cachedRead h (reads_issued s) root = Inr rootText"
  shows "getLinkedContents h (Some root) s =
           (Inr (aggregate_text h (Suc (reads_issued s)) (root_links h root)),
            s @ EvRead root # loop_events h (root_links h root))"
  using assms
  by (simp add: getLinkedContents_def vault_cachedRead_def links_loop_eq reads_issued_snoc_read
      aggregate_text_def root_links_def resolved_links_def read_entries_Nil loop_events_def
      split: option.split)

lemma resolved_links_all:
  "map (resolveLinkedFile h) ls = map Some fs \<Longrightarrow> resolved_links h ls = zip ls fs"
proof (induction ls arbitrary: fs)
  case Nil
  then show ?case by (simp add: resolved_links_def)
next
  case (Cons l ls)
  then obtain f fs' where "fs = f # fs'" by (cases fs) auto
  with Cons show ?case by (simp add: resolved_links_Cons)
qed

lemma loop_events_all:
  "map (resolveLinkedFile h) ls = map Some fs \<Longrightarrow>
   loop_events h ls = concat (map (\<lambda>(l, f). [EvResolve l, EvRead f]) (zip ls fs))"
proof (induction ls arbitrary: fs)
  case Nil
  then show ?case by (simp add: loop_events_def)
next
  case (Cons l ls)
  then obtain f fs' where "fs = f # fs'" by (cases fs) auto
  with Cons show ?case by (simp add: loop_events_Cons)
qed

text \<open>
  C2, as the code has it. Provided the first read, that of the root's own text, succeeds,
  the aggregate is the in-order concatenation of one entry (\<open>internal_link_entry\<close>:
  the label with the token, a line feed, the text, two line feeds) per link that resolves
  and whose text is read:
  a link that is not found adds nothing and does not stop the loop, a repeated link is
  processed again, and with no link resolved the aggregate is empty.
\<close>

theorem aggregate_of_resolved_reads:
  assumes "cachedRead h (reads_issued s) root = Inr rootText"
  shows "fst (getLinkedContents h (Some root) s)
         = Inr (aggregate_text h (Suc (reads_issued s)) (root_links h root))
       \<and> ((\<forall>l \<in> set (root_links h root). resolveLinkedFile h l = None) \<longrightarrow>
          fst (getLinkedContents h (Some root) s) = Inr [])"
proof -
  have eq: "fst (getLinkedContents h (Some root) s)
            = Inr (aggregate_text h (Suc (reads_issued s)) (root_links h root))"
    using getLinkedContents_eq [OF assms] by simp
  have "aggregate_text h k ls = []" if "\<forall>l \<in> set ls. resolveLinkedFile h l = None" for k ls
  proof -
    have "resolved_links h ls = []"
      using that by (induction ls) (simp_all add: resolved_links_def)
    then show ?thesis by (simp add: aggregate_text_def read_entries_Nil)
  qed
  with eq show ?thesis by simp
qed

theorem aggregate_of_resolved_reads_witness:
  "cachedRead repeated_link_vault (reads_issued []) root_note = Inr ''root''
   \<and> resolveLinkedFile repeated_link_vault link_missing = None
   \<and> fst (getLinkedContents repeated_link_vault (Some root_note) [])
       = Inr (internal_link_entry link_a ''a'' @ internal_link_entry link_a ''a'')
   \<and> cachedRead unresolved_link_vault (reads_issued []) root_note = Inr ''root''
   \<and> root_links unresolved_link_vault root_note = [link_missing]
   \<and> resolveLinkedFile unresolved_link_vault link_missing = None
   \<and> fst (getLinkedContents unresolved_link_vault (Some root_note) []) = Inr []"
proof -
  have r: "cachedRead repeated_link_vault (reads_issued []) root_note = Inr ''root''"
    by (simp add: repeated_link_vault_def linked_vault_def reads_ok_def root_note_def)
  have m: "resolveLinkedFile repeated_link_vault link_missing = None"
    by (simp add: resolveLinkedFile_def repeated_link_vault_def linked_vault_def link_missing_def
        root_note_def note_a_def note_b_def note_c_def frontmatter_aliases_def)
  have a: "resolveLinkedFile repeated_link_vault link_a = Some note_a"
    by (simp add: resolveLinkedFile_def repeated_link_vault_def linked_vault_def link_a_def
        root_note_def note_a_def note_b_def note_c_def frontmatter_aliases_def)
  have ls: "root_links repeated_link_vault root_note = [link_a, link_missing, link_a]"
    by (simp add: root_links_def cache_links_def repeated_link_vault_def linked_vault_def)
  have rd: "cachedRead repeated_link_vault n note_a = Inr ''a''" for n
    by (simp add: repeated_link_vault_def linked_vault_def reads_ok_def note_a_def)
  have ag: "aggregate_text repeated_link_vault (Suc (reads_issued [])) [link_a, link_missing, link_a]
        = internal_link_entry link_a ''a'' @ internal_link_entry link_a ''a''"
    by (simp add: aggregate_text_def resolved_links_def read_entries_def m a rd)
  have r': "cachedRead unresolved_link_vault (reads_issued []) root_note = Inr ''root''"
    by (simp add: unresolved_link_vault_def linked_vault_def reads_ok_def root_note_def)
  have ls': "root_links unresolved_link_vault root_note = [link_missing]"
    by (simp add: root_links_def cache_links_def unresolved_link_vault_def linked_vault_def)
  have m': "resolveLinkedFile unresolved_link_vault link_missing = None"
    by (simp add: resolveLinkedFile_def unresolved_link_vault_def linked_vault_def link_missing_def
        root_note_def note_a_def note_b_def note_c_def frontmatter_aliases_def)
  have w1: "fst (getLinkedContents repeated_link_vault (Some root_note) [])
            = Inr (internal_link_entry link_a ''a'' @ internal_link_entry link_a ''a'')"
    using aggregate_of_resolved_reads [OF r] ls ag by simp
  have q: "\<forall>l \<in> set (root_links unresolved_link_vault root_note).
             resolveLinkedFile unresolved_link_vault l = None"
    using ls' m' by simp
  have w2: "fst (getLinkedContents unresolved_link_vault (Some root_note) []) = Inr []"
    using aggregate_of_resolved_reads [OF r'] q by blast
  from r m w1 r' ls' m' w2 show ?thesis by blast
qed

text \<open>
  C2 as stated fails where the root's own text cannot be read: no link resolves, and the
  call is rejected instead of returning the empty string.
\<close>

theorem aggregate_root_read_counterexample:
  "resolved_links unreadable_root_vault (root_links unreadable_root_vault root_note) = []
   \<and> fst (getLinkedContents unreadable_root_vault (Some root_note) []) = Inl (Rejected ''EIO'')"
  by (simp add: getLinkedContents_def vault_cachedRead_def unreadable_root_vault_def
      linked_vault_def reads_rejected_def resolved_links_def root_links_def cache_links_def
      resolveLinkedFile_def link_missing_def root_note_def note_a_def note_b_def note_c_def
      frontmatter_aliases_def)

text \<open>
  C4. When every link of the root resolves, the loop over the links cannot fail: it
  resolves and reads every link in order, whatever the outcome of the earlier reads, and
  keeps exactly the entries of the reads that succeeded. So the call, once the root's own
  text has been read, returns their concatenation. With the second of three reads
  rejected, two entries are left, the first and the third.
\<close>

theorem read_failures_isolated:
  assumes "map (resolveLinkedFile h) ls = map Some fs"
  shows "links_loop h ls acc s =
           (acc @ read_entries h (reads_issued s) (zip ls fs),
            s @ concat (map (\<lambda>(l, f). [EvResolve l, EvRead f]) (zip ls fs)))
       \<and> (cachedRead h (reads_issued s) root = Inr rootText
            \<and> cache_links (getFileCache h root) = Some ls \<longrightarrow>
          getLinkedContents h (Some root) s =
            (Inr (concat (read_entries h (Suc (reads_issued s)) (zip ls fs))),
             s @ EvRead root # concat (map (\<lambda>(l, f). [EvResolve l, EvRead f]) (zip ls fs))))"
proof -
  have loop: "links_loop h ls acc s =
           (acc @ read_entries h (reads_issued s) (zip ls fs),
            s @ concat (map (\<lambda>(l, f). [EvResolve l, EvRead f]) (zip ls fs)))"
    by (simp add: links_loop_eq resolved_links_all [OF assms] loop_events_all [OF assms])
  have call: "getLinkedContents h (Some root) s =
            (Inr (concat (read_entries h (Suc (reads_issued s)) (zip ls fs))),
             s @ EvRead root # concat (map (\<lambda>(l, f). [EvResolve l, EvRead f]) (zip ls fs)))"
    if r: "cachedRead h (reads_issued s) root = Inr rootText"
      and c: "cache_links (getFileCache h root) = Some ls"
  proof -
    have "root_links h root = ls"
      using c by (simp add: root_links_def)
    with getLinkedContents_eq [OF r] resolved_links_all [OF assms] loop_events_all [OF assms]
    show ?thesis by (simp add: aggregate_text_def)
  qed
  from loop call show ?thesis by blast
qed

theorem read_failures_isolated_witness:
  "map (resolveLinkedFile three_links_vault) [link_a, link_b, link_c] = map Some [note_a, note_b, note_c]
   \<and> cachedRead three_links_vault (reads_issued []) root_note = Inr ''root''
   \<and> cache_links (getFileCache three_links_vault root_note) = Some [link_a, link_b, link_c]
   \<and> cachedRead three_links_vault 2 note_b = Inl (Rejected ''EIO'')
   \<and> links_loop three_links_vault [link_a, link_b, link_c] [] [EvRead root_note]
       = ([internal_link_entry link_a ''a'', internal_link_entry link_c ''c''],
          [EvRead root_note, EvResolve link_a, EvRead note_a, EvResolve link_b, EvRead note_b,
           EvResolve link_c, EvRead note_c])
   \<and> getLinkedContents three_links_vault (Some root_note) []
       = (Inr (internal_link_entry link_a ''a'' @ internal_link_entry link_c ''c''),
          [EvRead root_note, EvResolve link_a, EvRead note_a, EvResolve link_b, EvRead note_b,
           EvResolve link_c, EvRead note_c])"
proof -
  have m: "map (resolveLinkedFile three_links_vault) [link_a, link_b, link_c]
           = map Some [note_a, note_b, note_c]"
    by (simp add: resolveLinkedFile_def three_links_vault_def linked_vault_def
        link_a_def link_b_def link_c_def
        root_note_def note_a_def note_b_def note_c_def frontmatter_aliases_def)
  have r: "cachedRead three_links_vault (reads_issued []) root_note = Inr ''root''"
    by (simp add: three_links_vault_def linked_vault_def reads_second_fails_def root_note_def
        reads_issued_def)
  have c: "cache_links (getFileCache three_links_vault root_note) = Some [link_a, link_b, link_c]"
    by (simp add: cache_links_def three_links_vault_def linked_vault_def)
  have b: "cachedRead three_links_vault 2 note_b = Inl (Rejected ''EIO'')"
    by (simp add: three_links_vault_def linked_vault_def reads_second_fails_def)
  have e: "read_entries three_links_vault (Suc 0)
             (zip [link_a, link_b, link_c] [note_a, note_b, note_c])
           = [internal_link_entry link_a ''a'', internal_link_entry link_c ''c'']"
    by (simp add: read_entries_def three_links_vault_def linked_vault_def
        reads_second_fails_def note_a_def note_c_def)
  have k: "reads_issued [EvRead root_note] = Suc 0" "reads_issued [] = 0"
    by (simp_all add: reads_issued_def)
  from m r c b e k
    read_failures_isolated [OF m, of "[]" "[EvRead root_note]" root_note "''root''"]
    read_failures_isolated [OF m, of "[]" "[]" root_note "''root''"]
  show ?thesis by simp
qed

text \<open>
  C10. Without a root file the method returns the empty string and asks nothing of the
  host: no link is resolved and no file is read.
\<close>

theorem no_file_no_work: "getLinkedContents h None s = (Inr [], s)"
  by (simp add: getLinkedContents_def)

section \<open>Properties of the completion call and of the modal\<close>

text \<open>
  C6. For settings whose provider is none of \<open>openai\<close>, \<open>anthropic\<close>, \<open>deepseek\<close>,
  the completion call fails with the error \<open>Unsupported provider: <provider>\<close>, and the
  completion library has not been called.
\<close>

theorem unsupported_provider_fails:
  assumes "llmProvider settings \<notin> {''openai'', ''anthropic'', ''deepseek''}"
  shows "chatCompletion h (new_ApiCaller settings) msgs s
         = (Inl (Error (''Unsupported provider: '' @ llmProvider settings)), s)"
  using assms by (simp add: chatCompletion_def createClient_def new_ApiCaller_def)

theorem unsupported_provider_fails_witness:
  "llmProvider (demo_settings ''foo'') \<notin> {''openai'', ''anthropic'', ''deepseek''}
   \<and> chatCompletion three_links_vault (new_ApiCaller (demo_settings ''foo'')) (messages False ''X'' []) []
       = (Inl (Error ''Unsupported provider: foo''), [])"
proof -
  have p: "llmProvider (demo_settings ''foo'') \<notin> {''openai'', ''anthropic'', ''deepseek''}"
    by (simp add: demo_settings_def)
  have "llmProvider (demo_settings ''foo'') = ''foo''"
    by (simp add: demo_settings_def)
  with p unsupported_provider_fails [OF p, of three_links_vault "messages False ''X'' []" "[]"]
  show ?thesis by simp
qed

lemma chatCompletion_one_request:
  assumes "provider c \<in> {''openai'', ''anthropic'', ''deepseek''}"
  shows "\<exists>cl. createClient c = Inr cl \<and>
           chatCompletion h c msgs s =
             (completions_create h \<lparr>client = cl, model = caller_llmModelId c, request_messages = msgs\<rparr>,
              s @ [EvCreate \<lparr>client = cl, model = caller_llmModelId c, request_messages = msgs\<rparr>])"
  using assms by (auto simp: chatCompletion_def createClient_def Let_def)

text \<open>
  C7. The prompt is two messages, the fixed system message and one user message holding
  the whole root text, and with links also the whole linked content, under the fixed
  headings.
\<close>

theorem prompt_messages:
  "messages False rootText aggregateText =
     [\<lparr>role = ''system'', content = ''You are a helpful assistant that briefly summarizes text.''\<rparr>,
      \<lparr>role = ''user'',
       content = ''Please briefly summarize the following text:'' @ [CHR 0x0A, CHR 0x0A] @ rootText\<rparr>]
   \<and> messages True rootText aggregateText =
     [\<lparr>role = ''system'', content = ''You are a helpful assistant that briefly summarizes text.''\<rparr>,
      \<lparr>role = ''user'',
       content = ''Please briefly summarize the following text and its linked content:''
                 @ [CHR 0x0A, CHR 0x0A] @ ''Main Content:'' @ [CHR 0x0A] @ rootText
                 @ [CHR 0x0A, CHR 0x0A] @ ''Linked Content:'' @ [CHR 0x0A] @ aggregateText\<rparr>]"
  by (simp add: messages_def promptContent_def)

text \<open>
  C8, as the code has it. For a response that has a first choice: a null or empty content
  gives the text \<open>No summary available\<close>, not an error, and any other content is
  returned as it is.
\<close>

theorem summary_text_fallback:
  assumes "choices response = c # cs"
  shows "(message_content (choice_message c) = None \<or> message_content (choice_message c) = Some []
            \<longrightarrow> summary_text response = Inr ''No summary available'')
       \<and> (\<forall>t. message_content (choice_message c) = Some t \<and> t \<noteq> []
            \<longrightarrow> summary_text response = Inr t)"
  using assms by (auto simp: summary_text_def)

theorem summary_text_fallback_witness:
  "choices empty_content_response = [\<lparr>choice_message = \<lparr>message_content = None\<rparr>\<rparr>]
   \<and> summary_text empty_content_response = Inr ''No summary available''
   \<and> choices text_response = [\<lparr>choice_message = \<lparr>message_content = Some ''Hi''\<rparr>\<rparr>]
   \<and> summary_text text_response = Inr ''Hi''"
proof -
  have e: "choices empty_content_response = \<lparr>choice_message = \<lparr>message_content = None\<rparr>\<rparr> # []"
    by (simp add: empty_content_response_def)
  have t: "choices text_response = \<lparr>choice_message = \<lparr>message_content = Some ''Hi''\<rparr>\<rparr> # []"
    by (simp add: text_response_def)
  from e t summary_text_fallback [OF e] summary_text_fallback [OF t] show ?thesis by simp
qed

text \<open>
  C8 as stated fails for a response without choices: reading the first choice's message
  throws, and on a known provider the branch that shows the summary shows the error
  instead of the fallback text.
\<close>

theorem summary_text_counterexample:
  "summary_text no_choices_response
     = Inl (TypeError ''Cannot read properties of undefined (reading 'message')'')
   \<and> fst (show_summary no_choices_host (new_ApiCaller (demo_settings ''openai'')) False ''X'' [] [])
     = [P ''Error getting summary: Cannot read properties of undefined (reading 'message')'',
        Pre ''X'']"
  by (simp add: summary_text_def no_choices_response_def show_summary_def chatCompletion_def
      createClient_def new_ApiCaller_def demo_settings_def no_choices_host_def linked_vault_def
      Let_def)

text \<open>
  The branch behind the guard, taken alone, calls the completion library exactly once on
  a known provider, with the model and the two messages.
\<close>

lemma show_summary_one_request:
  assumes "createClient c = Inr cl"
  shows "snd (show_summary h c w cont extra s) =
           s @ [EvCreate \<lparr>client = cl, model = caller_llmModelId c,
                            request_messages = messages w cont extra\<rparr>]"
  using assms
  by (simp add: show_summary_def chatCompletion_def Let_def split: sum.split)

lemma loop_events_no_create: "filter is_create (loop_events h ls) = []"
  by (induction ls) (simp_all add: loop_events_def split: option.split)

lemma getLinkedContents_no_create:
  "filter is_create (snd (getLinkedContents h file_arg s)) = filter is_create s"
proof (cases file_arg)
  case None
  then show ?thesis by (simp add: getLinkedContents_def)
next
  case (Some root)
  show ?thesis
  proof (cases "cachedRead h (reads_issued s) root")
    case (Inl e)
    with Some show ?thesis by (simp add: getLinkedContents_root_read_rejected)
  next
    case (Inr body)
    with Some show ?thesis by (simp add: getLinkedContents_eq loop_events_no_create)
  qed
qed

lemma onOpen_creates_nothing:
  "filter is_create (snd (onOpen h c v w s)) = filter is_create s"
proof -
  obtain r s1 where g: "getLinkedContents h (case v of None \<Rightarrow> None | Some x \<Rightarrow> view_file x) s = (r, s1)"
    by (cases "getLinkedContents h (case v of None \<Rightarrow> None | Some x \<Rightarrow> view_file x) s")
  have "filter is_create s1 = filter is_create s"
    using getLinkedContents_no_create [of h "case v of None \<Rightarrow> None | Some x \<Rightarrow> view_file x" s] g
    by simp
  with g show ?thesis
    by (cases r) (simp_all add: onOpen_def Let_def)
qed

text \<open>
  C3 does not hold of \<open>onOpen\<close>: the guard \<^verbatim>\<open>if (false)\<close> sends every call to the
  branch that shows the raw content, and the completion library is never called.
\<close>

theorem onOpen_issues_no_request:
  "onOpen three_links_vault (new_ApiCaller (demo_settings ''openai'')) (Some demo_view) False []
   = ([Text (''No API caller available. Raw content:'' @ nl @ nl @ ''X'')], [])
   \<and> filter is_create
       (snd (onOpen three_links_vault (new_ApiCaller (demo_settings ''openai'')) (Some demo_view) True []))
     = []"
proof -
  have "onOpen three_links_vault (new_ApiCaller (demo_settings ''openai'')) (Some demo_view) False []
        = ([Text (''No API caller available. Raw content:'' @ nl @ nl @ ''X'')], [])"
    by (simp add: onOpen_def demo_view_def)
  with onOpen_creates_nothing
         [of three_links_vault "new_ApiCaller (demo_settings ''openai'')" "Some demo_view" True "[]"]
  show ?thesis by simp
qed

end
